theory Spec2Isabelle
  imports Main "HOL-Library.AList"
begin

section \<open>Data model of \<open>subtp/__init__.py\<close>\<close>

text \<open>
  A Python \<open>dict\<close> is an association list in insertion order: \<open>d.get(k)\<close> is
  \<^const>\<open>map_of\<close>, \<open>d[k] = v\<close> is \<^const>\<open>AList.update\<close> (in place when the key is there, at
  the end otherwise) and \<open>del d[k]\<close> is \<^const>\<open>AList.delete\<close>. Attribute values are opaque and
  compared by equality (they are values, not mutable objects shared with the instance): the
  type variable \<open>'v\<close>. Model classes are the type variable \<open>'m\<close>.
\<close>

type_synonym 'v attrs = "(string \<times> 'v) list"

text \<open>
  The exceptions the module can raise. \<open>TypeError\<close> is what the guard of
  \<open>post_save_callback\<close> raises: its message is built with two \<open>%s\<close> from one \<open>dict\<close> operand,
  so the \<open>%\<close> fails (not enough arguments for format string) before \<open>KeyError\<close> is constructed.
  \<open>KeyError\<close> is a failed subscript \<open>d[k]\<close>, \<open>ValueError\<close> a failed \<open>list.remove\<close>, and
  \<open>SubscriberError\<close> stands for whatever a subscriber callback raises, tagged with its name.
\<close>

datatype error = TypeError | KeyError | ValueError | SubscriberError string

text \<open>Concrete attribute values for the scenarios.\<close>

datatype pyval = PyNone | PyInt int | PyStr string

text \<open>
  What the hooks read of a model object: \<open>id(instance)\<close>, the names of
  \<open>instance._meta.fields\<close>, \<open>instance.__dict__\<close> and \<open>instance.pk\<close>.
\<close>

record 'v model_instance =
  obj_id :: nat
  meta_fields :: "string list"
  obj_dict :: "'v attrs"
  pk :: 'v

text \<open>The payload \<open>{"id": pk, "data": attributes}\<close>: a dict whose values are of two kinds.\<close>

datatype 'v pval = Ident 'v | Data "'v attrs"

type_synonym 'v payload = "(string \<times> 'v pval) list"

text \<open>
  A subscriber is known by a name and by whether it raises on a given call
  \<open>callback(model_class=..., event=..., payload=...)\<close>. Subscribers are taken not to touch the
  module's globals nor to mutate the payload they are handed.
\<close>

datatype ('m, 'v) callback =
  Callback (cb_name: string) (cb_raises: "'m \<Rightarrow> string \<Rightarrow> 'v payload \<Rightarrow> bool")

text \<open>One invocation of a subscriber: its name and the three keyword arguments.\<close>

type_synonym ('m, 'v) call = "string \<times> 'm \<times> string \<times> 'v payload"

text \<open>
  The module's globals \<open>_snapshots\<close>, \<open>_callbacks\<close>, \<open>_registered_models\<close>, and the
  sequence of subscriber invocations made so far (the observable effect of \<open>publish\<close>).
\<close>

record ('m, 'v) state =
  snapshots :: "(nat \<times> 'v attrs) list"
  callbacks :: "('m, 'v) callback list"
  registered_models :: "'m list"
  calls :: "('m, 'v) call list"

type_synonym ('m, 'v) outcome = "error option \<times> ('m, 'v) state"

section \<open>Python primitives\<close>

text \<open>\<open>k in d\<close>\<close>

definition dict_contains :: "'k \<Rightarrow> ('k \<times> 'a) list \<Rightarrow> bool" where
  "dict_contains k d = (k \<in> set (map fst d))"

text \<open>\<open>d[k]\<close>: raises \<open>KeyError\<close> when the key is absent.\<close>

definition dict_getitem :: "('k \<times> 'a) list \<Rightarrow> 'k \<Rightarrow> error + 'a" where
  "dict_getitem d k = (case map_of d k of None \<Rightarrow> Inl KeyError | Some v \<Rightarrow> Inr v)"

text \<open>\<open>del d[k]\<close>: raises \<open>KeyError\<close> when the key is absent.\<close>

definition dict_del :: "'k \<Rightarrow> ('k \<times> 'a) list \<Rightarrow> error + ('k \<times> 'a) list" where
  "dict_del k d = (if dict_contains k d then Inr (AList.delete k d) else Inl KeyError)"

text \<open>\<open>xs.remove(x)\<close>: removes the first occurrence, raises \<open>ValueError\<close> when there is none.\<close>

definition list_remove :: "'a \<Rightarrow> 'a list \<Rightarrow> error + 'a list" where
  "list_remove x xs = (if x \<in> set xs then Inr (remove1 x xs) else Inl ValueError)"

text \<open>Truth value of an optional dict: \<open>None\<close> and \<open>{}\<close> are falsy.\<close>

definition truthy :: "('k \<times> 'a) list option \<Rightarrow> bool" where
  "truthy d = (case d of None \<Rightarrow> False | Some kvs \<Rightarrow> kvs \<noteq> [])"

section \<open>Registry and subscriber list\<close>

definition register :: "'m \<Rightarrow> ('m, 'v) state \<Rightarrow> ('m, 'v) outcome" where
  "register model_class s =
     (None, s\<lparr>registered_models := registered_models s @ [model_class]\<rparr>)"

definition unregister :: "'m \<Rightarrow> ('m, 'v) state \<Rightarrow> ('m, 'v) outcome" where
  "unregister model_class s =
     (case list_remove model_class (registered_models s) of
        Inl e \<Rightarrow> (Some e, s)
      | Inr ms \<Rightarrow> (None, s\<lparr>registered_models := ms\<rparr>))"

definition add_callback :: "('m, 'v) callback \<Rightarrow> ('m, 'v) state \<Rightarrow> ('m, 'v) outcome" where
  "add_callback cb s = (None, s\<lparr>callbacks := callbacks s @ [cb]\<rparr>)"

section \<open>Publisher\<close>

text \<open>
  \<open>payload = {"id": pk}\<close>, then \<open>payload.update({"data": attributes})\<close> under
  \<open>if attributes:\<close>.
\<close>

definition build_payload :: "'v \<Rightarrow> 'v attrs option \<Rightarrow> 'v payload" where
  "build_payload pk_val attributes =
     (let payload = [(''id'', Ident pk_val)] in
      case attributes of
        None \<Rightarrow> payload
      | Some a \<Rightarrow> if truthy (Some a) then AList.update ''data'' (Data a) payload else payload)"

text \<open>
  \<open>for callback in _callbacks: callback(model_class=..., event=..., payload=...)\<close>. A
  subscriber that raises ends the loop: the exception is not caught.
\<close>

fun invoke_all ::
  "('m, 'v) callback list \<Rightarrow> 'm \<Rightarrow> string \<Rightarrow> 'v payload \<Rightarrow> ('m, 'v) state \<Rightarrow> ('m, 'v) outcome"
where
  "invoke_all [] model_class event payload s = (None, s)"
| "invoke_all (cb # cbs) model_class event payload s =
     (let s' = s\<lparr>calls := calls s @ [(cb_name cb, model_class, event, payload)]\<rparr> in
      if cb_raises cb model_class event payload
      then (Some (SubscriberError (cb_name cb)), s')
      else invoke_all cbs model_class event payload s')"

definition publish ::
  "'m \<Rightarrow> string \<Rightarrow> 'v \<Rightarrow> 'v attrs option \<Rightarrow> ('m, 'v) state \<Rightarrow> ('m, 'v) outcome"
where
  "publish model_class event pk_val attributes s =
     invoke_all (callbacks s) model_class event (build_payload pk_val attributes) s"

section \<open>Snapshots and the diff\<close>

text \<open>
  \<open>{key: value for (key, value) in instance.__dict__.items() if key in whitelist}\<close>: the keys
  of a dict are distinct, so the comprehension keeps the selected items in their order.
\<close>

definition get_attributes :: "'v model_instance \<Rightarrow> 'v attrs" where
  "get_attributes inst =
     (let whitelist = meta_fields inst in
      filter (\<lambda>(key, val). key \<in> set whitelist) (obj_dict inst))"

text \<open>
  \<open>{key: attributes[key] for key in attributes if attributes[key] != previous[key]}\<close>, one
  key at a time, the keys still to visit first and the dict built so far last. A subscript on a
  missing key raises \<open>KeyError\<close> and ends the comprehension.
\<close>

fun delta_loop :: "string list \<Rightarrow> 'v attrs \<Rightarrow> 'v attrs \<Rightarrow> 'v attrs \<Rightarrow> error + 'v attrs" where
  "delta_loop [] attributes previous acc = Inr acc"
| "delta_loop (key # keys) attributes previous acc =
     (case dict_getitem attributes key of
        Inl e \<Rightarrow> Inl e
      | Inr a \<Rightarrow>
          (case dict_getitem previous key of
             Inl e \<Rightarrow> Inl e
           | Inr b \<Rightarrow>
               delta_loop keys attributes previous
                 (if a \<noteq> b then AList.update key a acc else acc)))"

definition compute_delta :: "'v attrs \<Rightarrow> 'v attrs \<Rightarrow> error + 'v attrs" where
  "compute_delta attributes previous = delta_loop (map fst attributes) attributes previous []"

section \<open>Lifecycle hooks\<close>

text \<open>
  The callback handed to \<open>weakref.ref\<close> in \<open>post_init_callback\<close>, for the instance whose
  \<open>id\<close> it closes over. When it runs is up to the host's memory management, so it is an
  operation of its own here.
\<close>

definition destructor :: "'v model_instance \<Rightarrow> ('m, 'v) state \<Rightarrow> ('m, 'v) outcome" where
  "destructor inst s =
     (if dict_contains (obj_id inst) (snapshots s)
      then (case dict_del (obj_id inst) (snapshots s) of
              Inl e \<Rightarrow> (Some e, s)
            | Inr d \<Rightarrow> (None, s\<lparr>snapshots := d\<rparr>))
      else (None, s))"

definition post_init_callback ::
  "'m \<Rightarrow> 'v model_instance \<Rightarrow> ('m, 'v) state \<Rightarrow> ('m, 'v) outcome"
where
  "post_init_callback sender inst s =
     (if sender \<notin> set (registered_models s) then (None, s)
      else
        let attributes = get_attributes inst in
        (None, s\<lparr>snapshots := AList.update (obj_id inst) attributes (snapshots s)\<rparr>))"

text \<open>
  \<open>post_save_callback\<close>: the create branch and the update branch, then the snapshot write,
  which is reached only when the branch taken has not raised. On the update branch
  \<open>if not previous\<close> is true of a missing snapshot and of an empty one alike (the \<open>None\<close> case
  below the guard is never reached).
\<close>

definition post_save_callback ::
  "'m \<Rightarrow> 'v model_instance \<Rightarrow> bool \<Rightarrow> ('m, 'v) state \<Rightarrow> ('m, 'v) outcome"
where
  "post_save_callback sender inst created s =
     (if sender \<notin> set (registered_models s) then (None, s)
      else
        let attributes = get_attributes inst;
            branch =
              (if created then publish sender ''create'' (pk inst) (Some attributes) s
               else
                 let previous = map_of (snapshots s) (obj_id inst) in
                 if \<not> truthy previous then (Some TypeError, s)
                 else
                   (case previous of
                      None \<Rightarrow> (Some TypeError, s)
                    | Some prev \<Rightarrow>
                        (case compute_delta attributes prev of
                           Inl e \<Rightarrow> (Some e, s)
                         | Inr delta \<Rightarrow> publish sender ''update'' (pk inst) (Some delta) s)))
        in
        (case branch of
           (Some e, s') \<Rightarrow> (Some e, s')
         | (None, s') \<Rightarrow>
             (None, s'\<lparr>snapshots := AList.update (obj_id inst) attributes (snapshots s')\<rparr>)))"

definition post_delete_callback ::
  "'m \<Rightarrow> 'v model_instance \<Rightarrow> ('m, 'v) state \<Rightarrow> ('m, 'v) outcome"
where
  "post_delete_callback sender inst s =
     (if sender \<notin> set (registered_models s) then (None, s)
      else publish sender ''delete'' (pk inst) None s)"

section \<open>A concrete scenario\<close>

text \<open>
  The model \<open>Order\<close> with the fields \<open>id\<close>, \<open>status\<close> and \<open>total\<close>. An object's
  \<open>__dict__\<close> also holds \<open>_state\<close>, which is no field and is left out of every snapshot.
\<close>

definition cb_ok :: "string \<Rightarrow> (string, pyval) callback" where
  "cb_ok name = Callback name (\<lambda>model_class event payload. False)"

definition cb_bad :: "string \<Rightarrow> (string, pyval) callback" where
  "cb_bad name = Callback name (\<lambda>model_class event payload. True)"

definition order_obj :: "nat \<Rightarrow> string \<Rightarrow> int \<Rightarrow> pyval model_instance" where
  "order_obj address status amount =
     \<lparr>obj_id = address, meta_fields = [''id'', ''status'', ''total''],
      obj_dict = [(''_state'', PyNone), (''id'', PyInt 1),
                  (''status'', PyStr status), (''total'', PyInt amount)],
      pk = PyInt 1\<rparr>"

text \<open>
  An object none of whose \<open>__dict__\<close> keys is a field name, so that its snapshot is empty:
  a model whose only field is a one-to-one primary key \<open>user\<close> keeps the key's value under
  \<open>user_id\<close>.
\<close>

definition bare_obj :: "nat \<Rightarrow> pyval model_instance" where
  "bare_obj address =
     \<lparr>obj_id = address, meta_fields = [''user''],
      obj_dict = [(''_state'', PyNone), (''user_id'', PyInt 4)], pk = PyInt 4\<rparr>"

definition mk_state ::
  "(nat \<times> pyval attrs) list \<Rightarrow> (string, pyval) callback list \<Rightarrow> string list \<Rightarrow>
   (string, pyval) state"
where
  "mk_state snaps cbs models =
     \<lparr>snapshots = snaps, callbacks = cbs, registered_models = models, calls = []\<rparr>"

text \<open>\<open>Order\<close> registered, two subscribers, and the object at address 7 snapshotted as new.\<close>

definition s_order :: "(string, pyval) state" where
  "s_order =
     mk_state [(7, [(''id'', PyInt 1), (''status'', PyStr ''new''), (''total'', PyInt 10)])]
       [cb_ok ''a'', cb_ok ''b''] [''Order'']"

section \<open>Properties of the primitives\<close>

lemma invoke_all_no_raise:
  "(\<And>cb. cb \<in> set cbs \<Longrightarrow> \<not> cb_raises cb m e p) \<Longrightarrow>
   invoke_all cbs m e p s = (None, s\<lparr>calls := calls s @ map (\<lambda>cb. (cb_name cb, m, e, p)) cbs\<rparr>)"
  by (induction cbs arbitrary: s) (simp_all add: Let_def)

lemma invoke_all_general:
  "invoke_all cbs m e p s =
     ((case dropWhile (\<lambda>cb. \<not> cb_raises cb m e p) cbs of
         [] \<Rightarrow> None | cb # rest \<Rightarrow> Some (SubscriberError (cb_name cb))),
      s\<lparr>calls := calls s @ map (\<lambda>cb. (cb_name cb, m, e, p))
          (takeWhile (\<lambda>cb. \<not> cb_raises cb m e p) cbs @
           take 1 (dropWhile (\<lambda>cb. \<not> cb_raises cb m e p) cbs))\<rparr>)"
  by (induction cbs arbitrary: s) (simp_all add: Let_def)

lemma invoke_all_frame:
  "snapshots (snd (invoke_all cbs m e p s)) = snapshots s \<and>
   callbacks (snd (invoke_all cbs m e p s)) = callbacks s \<and>
   registered_models (snd (invoke_all cbs m e p s)) = registered_models s"
  by (simp add: invoke_all_general)

lemma delta_loop_lookup:
  "delta_loop ks a p acc = Inr d \<Longrightarrow>
   map_of d k = (if k \<in> set ks \<and> map_of a k \<noteq> map_of p k then map_of a k else map_of acc k)"
proof (induction ks arbitrary: acc)
  case Nil
  then show ?case by simp
next
  case (Cons key keys)
  then show ?case
    by (auto simp: dict_getitem_def update_conv' split: option.splits if_splits)
qed

lemma delta_loop_succeeds:
  "set ks \<subseteq> fst ` set a \<Longrightarrow> set ks \<subseteq> fst ` set p \<Longrightarrow> \<exists>d. delta_loop ks a p acc = Inr d"
proof (induction ks arbitrary: acc)
  case Nil
  then show ?case by simp
next
  case (Cons key keys)
  then show ?case
    by (auto simp: dict_getitem_def map_of_eq_None_iff split: option.splits)
qed

lemma delta_loop_fails:
  "key \<in> set ks \<Longrightarrow> map_of p key = None \<Longrightarrow> delta_loop ks a p acc = Inl KeyError"
  by (induction ks arbitrary: acc) (auto simp: dict_getitem_def split: option.splits)

lemma delta_loop_error: "delta_loop ks a p acc = Inl e \<Longrightarrow> e = KeyError"
  by (induction ks arbitrary: acc) (auto simp: dict_getitem_def split: option.splits)

lemma compute_delta_error: "compute_delta a p = Inl e \<Longrightarrow> e = KeyError"
  unfolding compute_delta_def by (rule delta_loop_error)

lemma compute_delta_missing_key:
  "k \<in> fst ` set a \<Longrightarrow> map_of p k = None \<Longrightarrow> compute_delta a p = Inl KeyError"
  unfolding compute_delta_def by (rule delta_loop_fails) auto

lemma compute_delta_succeeds:
  "fst ` set a \<subseteq> fst ` set p \<Longrightarrow> \<exists>d. compute_delta a p = Inr d"
  unfolding compute_delta_def by (rule delta_loop_succeeds) auto

lemma compute_delta_lookup:
  assumes "compute_delta a p = Inr d"
  shows "map_of d k = (if k \<in> fst ` set a \<and> map_of a k \<noteq> map_of p k then map_of a k else None)"
  using delta_loop_lookup [OF assms [unfolded compute_delta_def], of k] by simp

lemma compute_delta_keys:
  assumes "compute_delta a p = Inr d"
  shows "fst ` set d = {k \<in> fst ` set a. map_of a k \<noteq> map_of p k}"
proof -
  have present: "map_of a k \<noteq> None" if "k \<in> fst ` set a" for k
    using that by (simp add: map_of_eq_None_iff)
  have "fst ` set d = dom (map_of d)"
    by (simp add: dom_map_of_conv_image_fst)
  also have "\<dots> = {k \<in> fst ` set a. map_of a k \<noteq> map_of p k}"
    using present by (auto simp: dom_def compute_delta_lookup [OF assms] split: if_splits)
  finally show ?thesis .
qed

lemma filter_keys_lookup:
  "map_of (filter (\<lambda>(key, val). key \<in> A) xs) k = (if k \<in> A then map_of xs k else None)"
  by (induction xs) auto

lemma get_attributes_lookup:
  "map_of (get_attributes inst) k =
     (if k \<in> set (meta_fields inst) then map_of (obj_dict inst) k else None)"
  unfolding get_attributes_def Let_def by (rule filter_keys_lookup)

section \<open>Properties of \<open>publish\<close> and of the branches of \<open>post_save_callback\<close>\<close>

lemma publish_general:
  "publish m e k a s =
     ((case dropWhile (\<lambda>cb. \<not> cb_raises cb m e (build_payload k a)) (callbacks s) of
         [] \<Rightarrow> None | cb # rest \<Rightarrow> Some (SubscriberError (cb_name cb))),
      s\<lparr>calls := calls s @ map (\<lambda>cb. (cb_name cb, m, e, build_payload k a))
          (takeWhile (\<lambda>cb. \<not> cb_raises cb m e (build_payload k a)) (callbacks s) @
           take 1 (dropWhile (\<lambda>cb. \<not> cb_raises cb m e (build_payload k a)) (callbacks s)))\<rparr>)"
  unfolding publish_def by (rule invoke_all_general)

lemma publish_no_raise:
  "(\<And>cb. cb \<in> set (callbacks s) \<Longrightarrow> \<not> cb_raises cb m e (build_payload k a)) \<Longrightarrow>
   publish m e k a s =
     (None, s\<lparr>calls := calls s @ map (\<lambda>cb. (cb_name cb, m, e, build_payload k a)) (callbacks s)\<rparr>)"
  unfolding publish_def by (rule invoke_all_no_raise)

lemma publish_frame:
  "snapshots (snd (publish m e k a s)) = snapshots s \<and>
   callbacks (snd (publish m e k a s)) = callbacks s \<and>
   registered_models (snd (publish m e k a s)) = registered_models s"
  unfolding publish_def by (rule invoke_all_frame)

lemma publish_error_kind:
  "fst (publish m e k a s) \<noteq> Some TypeError \<and> fst (publish m e k a s) \<noteq> Some KeyError"
  by (simp add: publish_general split: list.splits)

lemma build_payload_eq:
  "build_payload k a =
     (''id'', Ident k) # (case a of None \<Rightarrow> [] | Some d \<Rightarrow> if d = [] then [] else [(''data'', Data d)])"
  by (simp add: build_payload_def truthy_def split: option.splits)

lemma post_save_create:
  "sender \<in> set (registered_models s) \<Longrightarrow>
   post_save_callback sender inst True s =
     (case publish sender ''create'' (pk inst) (Some (get_attributes inst)) s of
        (Some e, s') \<Rightarrow> (Some e, s')
      | (None, s') \<Rightarrow>
          (None, s'\<lparr>snapshots := AList.update (obj_id inst) (get_attributes inst) (snapshots s')\<rparr>))"
  by (simp add: post_save_callback_def Let_def)

lemma post_save_no_snapshot:
  "sender \<in> set (registered_models s) \<Longrightarrow>
   map_of (snapshots s) (obj_id inst) = None \<or> map_of (snapshots s) (obj_id inst) = Some [] \<Longrightarrow>
   post_save_callback sender inst False s = (Some TypeError, s)"
  by (auto simp: post_save_callback_def truthy_def Let_def)

lemma post_save_update:
  "sender \<in> set (registered_models s) \<Longrightarrow>
   map_of (snapshots s) (obj_id inst) = Some prev \<Longrightarrow> prev \<noteq> [] \<Longrightarrow>
   post_save_callback sender inst False s =
     (case compute_delta (get_attributes inst) prev of
        Inl e \<Rightarrow> (Some e, s)
      | Inr delta \<Rightarrow>
          (case publish sender ''update'' (pk inst) (Some delta) s of
             (Some e, s') \<Rightarrow> (Some e, s')
           | (None, s') \<Rightarrow>
               (None, s'\<lparr>snapshots := AList.update (obj_id inst) (get_attributes inst) (snapshots s')\<rparr>)))"
  by (simp add: post_save_callback_def truthy_def Let_def split: sum.splits)

lemma finish_fst:
  "fst (case r of (Some e, s') \<Rightarrow> (Some e, s') | (None, s') \<Rightarrow> (None, f s')) = fst r"
  by (cases r; cases "fst r") auto

lemma finish_snd:
  "snd (case r of (Some e, s') \<Rightarrow> (Some e, s') | (None, s') \<Rightarrow> (None, f s')) =
     (if fst r = None then f (snd r) else snd r)"
  by (cases r; cases "fst r") auto

section \<open>Facts of the scenario\<close>

lemma s_order_fields:
  "snapshots s_order = [(7, [(''id'', PyInt 1), (''status'', PyStr ''new''), (''total'', PyInt 10)])]"
  "callbacks s_order = [cb_ok ''a'', cb_ok ''b'']"
  "registered_models s_order = [''Order'']"
  "calls s_order = []"
  by (simp_all add: s_order_def mk_state_def)

lemma order_obj_attributes:
  "get_attributes (order_obj n st amt) =
     [(''id'', PyInt 1), (''status'', PyStr st), (''total'', PyInt amt)]"
  "obj_id (order_obj n st amt) = n"
  "pk (order_obj n st amt) = PyInt 1"
  by (simp_all add: get_attributes_def order_obj_def)

lemma bare_obj_attributes:
  "get_attributes (bare_obj n) = []" "obj_id (bare_obj n) = n" "pk (bare_obj n) = PyInt 4"
  by (simp_all add: get_attributes_def bare_obj_def)

lemmas run_simps =
  post_save_callback_def post_init_callback_def publish_def build_payload_def truthy_def
  compute_delta_def dict_getitem_def mk_state_def cb_ok_def cb_bad_def Let_def

section \<open>Delivery to subscribers\<close>

text \<open>
  C6, as the code has it. \<open>publish\<close> invokes the registered callbacks synchronously, in the
  order they were added and once per registration, each with the same
  \<open>(model_class, event, payload)\<close>, up to and including the first one that raises: its
  exception propagates and the callbacks after it are not invoked. When none raises, every
  callback is invoked. The payload always holds the identifier under \<open>id\<close>, and holds \<open>data\<close>
  if and only if the attributes argument is a non-empty dict, in which case \<open>data\<close> is that dict.
\<close>

theorem publish_delivers_in_order:
  "publish model_class event pk_val attributes s =
     ((case dropWhile (\<lambda>cb. \<not> cb_raises cb model_class event (build_payload pk_val attributes))
              (callbacks s) of
         [] \<Rightarrow> None
       | cb # rest \<Rightarrow> Some (SubscriberError (cb_name cb))),
      s\<lparr>calls := calls s @
          map (\<lambda>cb. (cb_name cb, model_class, event, build_payload pk_val attributes))
            (takeWhile (\<lambda>cb. \<not> cb_raises cb model_class event (build_payload pk_val attributes))
               (callbacks s) @
             take 1
               (dropWhile (\<lambda>cb. \<not> cb_raises cb model_class event (build_payload pk_val attributes))
                  (callbacks s)))\<rparr>) \<and>
   ((\<forall>cb \<in> set (callbacks s). \<not> cb_raises cb model_class event (build_payload pk_val attributes)) \<longrightarrow>
      publish model_class event pk_val attributes s =
        (None, s\<lparr>calls := calls s @
           map (\<lambda>cb. (cb_name cb, model_class, event, build_payload pk_val attributes))
             (callbacks s)\<rparr>)) \<and>
   build_payload pk_val attributes =
     (''id'', Ident pk_val) #
     (case attributes of None \<Rightarrow> [] | Some a \<Rightarrow> if a = [] then [] else [(''data'', Data a)]) \<and>
   map_of (build_payload pk_val attributes) ''id'' = Some (Ident pk_val) \<and>
   (''data'' \<in> fst ` set (build_payload pk_val attributes) \<longleftrightarrow>
      (\<exists>a. attributes = Some a \<and> a \<noteq> []))"
proof -
  have keys: "''data'' \<in> fst ` set (build_payload pk_val attributes) \<longleftrightarrow>
      (\<exists>a. attributes = Some a \<and> a \<noteq> [])"
    by (cases attributes) (simp_all add: build_payload_eq)
  have ident: "map_of (build_payload pk_val attributes) ''id'' = Some (Ident pk_val)"
    by (simp add: build_payload_eq)
  show ?thesis
    using keys ident publish_general [of model_class event pk_val attributes s]
      publish_no_raise [of s model_class event pk_val attributes]
      build_payload_eq [of pk_val attributes]
    by blast
qed

text \<open>Two subscribers that do not raise: both receive the update, first \<open>a\<close>, then \<open>b\<close>.\<close>

theorem publish_delivers_in_order_witness:
  "publish ''Order'' ''update'' (PyInt 1) (Some [(''status'', PyStr ''paid'')]) s_order =
     (None, s_order\<lparr>calls :=
        [(''a'', ''Order'', ''update'', [(''id'', Ident (PyInt 1)), (''data'', Data [(''status'', PyStr ''paid'')])]),
         (''b'', ''Order'', ''update'', [(''id'', Ident (PyInt 1)), (''data'', Data [(''status'', PyStr ''paid'')])])]\<rparr>)"
proof -
  have quiet: "\<forall>cb \<in> set (callbacks s_order).
      \<not> cb_raises cb ''Order'' ''update'' (build_payload (PyInt 1) (Some [(''status'', PyStr ''paid'')]))"
    by (simp add: s_order_def mk_state_def cb_ok_def)
  have cbs: "callbacks s_order = [cb_ok ''a'', cb_ok ''b'']" "calls s_order = []"
    by (simp_all add: s_order_def mk_state_def)
  note t = publish_delivers_in_order [of "''Order''" "''update''" "PyInt 1"
      "Some [(''status'', PyStr ''paid'')]" s_order]
  have pl: "build_payload (PyInt 1) (Some [(''status'', PyStr ''paid'')]) =
      [(''id'', Ident (PyInt 1)), (''data'', Data [(''status'', PyStr ''paid'')])]"
    using t by simp
  have "publish ''Order'' ''update'' (PyInt 1) (Some [(''status'', PyStr ''paid'')]) s_order =
        (None, s_order\<lparr>calls := calls s_order @
           map (\<lambda>cb. (cb_name cb, ''Order'', ''update'',
                  build_payload (PyInt 1) (Some [(''status'', PyStr ''paid'')])))
             (callbacks s_order)\<rparr>)"
    using t quiet by blast
  then show ?thesis
    by (simp add: pl cbs cb_ok_def)
qed

text \<open>
  The claim as stated (every registered callback is invoked, for any subscriber list) fails
  when the first of two subscribers raises: the second is never invoked.
\<close>

theorem publish_stops_at_raising_subscriber:
  "publish ''Order'' ''delete'' (PyInt 1) None (mk_state [] [cb_bad ''a'', cb_ok ''b''] [''Order'']) =
     (Some (SubscriberError ''a''),
      (mk_state [] [cb_bad ''a'', cb_ok ''b''] [''Order''])
        \<lparr>calls := [(''a'', ''Order'', ''delete'', [(''id'', Ident (PyInt 1))])]\<rparr>)"
  by (simp add: publish_def build_payload_def mk_state_def cb_bad_def cb_ok_def)

section \<open>Create events\<close>

text \<open>
  C3, as the code has it. For a registered model class whose subscribers do not raise,
  constructing an instance and then persisting it as newly created invokes every subscriber
  once, in order, with a \<open>create\<close> event whose payload holds the identifier and, when the
  current attribute set is not empty, that whole set under \<open>data\<close>; when it is empty the
  payload has no \<open>data\<close> key. The attribute set is \<open>__dict__\<close> restricted to the field names.
  The hook returns normally and leaves the current attributes as the snapshot.
\<close>

theorem create_publishes_full_attributes:
  assumes reg: "sender \<in> set (registered_models s)"
    and quiet: "\<And>cb p. cb \<in> set (callbacks s) \<Longrightarrow> \<not> cb_raises cb sender ''create'' p"
  shows "post_save_callback sender inst True (snd (post_init_callback sender inst0 s)) =
       (None,
        s\<lparr>calls := calls s @
             map (\<lambda>cb. (cb_name cb, sender, ''create'',
                    (''id'', Ident (pk inst)) #
                    (if get_attributes inst = [] then []
                     else [(''data'', Data (get_attributes inst))])))
               (callbacks s),
          snapshots := AList.update (obj_id inst) (get_attributes inst)
             (AList.update (obj_id inst0) (get_attributes inst0) (snapshots s))\<rparr>) \<and>
     (\<forall>k. map_of (get_attributes inst) k =
            (if k \<in> set (meta_fields inst) then map_of (obj_dict inst) k else None))"
proof -
  let ?s1 = "snd (post_init_callback sender inst0 s)"
  have s1: "?s1 = s\<lparr>snapshots := AList.update (obj_id inst0) (get_attributes inst0) (snapshots s)\<rparr>"
    using reg by (simp add: post_init_callback_def Let_def)
  have reg1: "sender \<in> set (registered_models ?s1)"
    using reg by (simp add: s1)
  have pub: "publish sender ''create'' (pk inst) (Some (get_attributes inst)) ?s1 =
      (None, ?s1\<lparr>calls := calls ?s1 @
         map (\<lambda>cb. (cb_name cb, sender, ''create'', build_payload (pk inst) (Some (get_attributes inst))))
           (callbacks ?s1)\<rparr>)"
    by (rule publish_no_raise) (simp add: s1 quiet)
  show ?thesis
    by (simp add: post_save_create [OF reg1] pub build_payload_eq get_attributes_lookup)
      (simp add: s1)
qed

theorem create_publishes_full_attributes_witness:
  "post_save_callback ''Order'' (order_obj 7 ''new'' 10) True
     (snd (post_init_callback ''Order'' (order_obj 7 ''new'' 10)
        (mk_state [] [cb_ok ''a'', cb_ok ''b''] [''Order'']))) =
   (None,
    (mk_state [] [cb_ok ''a'', cb_ok ''b''] [''Order''])
      \<lparr>calls :=
         [(''a'', ''Order'', ''create'',
           [(''id'', Ident (PyInt 1)),
            (''data'', Data [(''id'', PyInt 1), (''status'', PyStr ''new''), (''total'', PyInt 10)])]),
          (''b'', ''Order'', ''create'',
           [(''id'', Ident (PyInt 1)),
            (''data'', Data [(''id'', PyInt 1), (''status'', PyStr ''new''), (''total'', PyInt 10)])])],
       snapshots :=
         [(7, [(''id'', PyInt 1), (''status'', PyStr ''new''), (''total'', PyInt 10)])]\<rparr>)"
proof -
  let ?s = "mk_state [] [cb_ok ''a'', cb_ok ''b''] [''Order'']"
  have reg: "''Order'' \<in> set (registered_models ?s)"
    by (simp add: mk_state_def)
  have quiet: "\<not> cb_raises cb ''Order'' ''create'' p" if "cb \<in> set (callbacks ?s)" for cb p
    using that by (auto simp: mk_state_def cb_ok_def)
  note t = create_publishes_full_attributes [OF reg quiet,
      of "order_obj 7 ''new'' 10" "order_obj 7 ''new'' 10"]
  from t have "post_save_callback ''Order'' (order_obj 7 ''new'' 10) True
     (snd (post_init_callback ''Order'' (order_obj 7 ''new'' 10) ?s)) =
       (None,
        ?s\<lparr>calls := calls ?s @
             map (\<lambda>cb. (cb_name cb, ''Order'', ''create'',
                    (''id'', Ident (pk (order_obj 7 ''new'' 10))) #
                    (if get_attributes (order_obj 7 ''new'' 10) = [] then []
                     else [(''data'', Data (get_attributes (order_obj 7 ''new'' 10)))])))
               (callbacks ?s),
          snapshots := AList.update (obj_id (order_obj 7 ''new'' 10)) (get_attributes (order_obj 7 ''new'' 10))
             (AList.update (obj_id (order_obj 7 ''new'' 10)) (get_attributes (order_obj 7 ''new'' 10))
               (snapshots ?s))\<rparr>)"
    by blast
  then show ?thesis
    by (simp add: order_obj_attributes mk_state_def cb_ok_def)
qed

text \<open>
  The claim as stated fails in two ways: an instance with an empty attribute set gets a
  \<open>create\<close> event with no \<open>data\<close> at all, and when the first of two subscribers raises the
  second receives no event.
\<close>

theorem create_event_counterexample:
  "get_attributes (bare_obj 3) = [] \<and>
   post_save_callback ''Profile'' (bare_obj 3) True
       (snd (post_init_callback ''Profile'' (bare_obj 3)
          (mk_state [] [cb_ok ''a''] [''Profile'']))) =
     (None,
      (mk_state [] [cb_ok ''a''] [''Profile''])
        \<lparr>calls := [(''a'', ''Profile'', ''create'', [(''id'', Ident (PyInt 4))])],
         snapshots := [(3, [])]\<rparr>) \<and>
   post_save_callback ''Order'' (order_obj 7 ''new'' 10) True
       (snd (post_init_callback ''Order'' (order_obj 7 ''new'' 10)
          (mk_state [] [cb_bad ''a'', cb_ok ''b''] [''Order'']))) =
     (Some (SubscriberError ''a''),
      (mk_state [] [cb_bad ''a'', cb_ok ''b''] [''Order''])
        \<lparr>calls := [(''a'', ''Order'', ''create'',
            [(''id'', Ident (PyInt 1)),
             (''data'', Data [(''id'', PyInt 1), (''status'', PyStr ''new''), (''total'', PyInt 10)])])],
         snapshots := [(7, [(''id'', PyInt 1), (''status'', PyStr ''new''), (''total'', PyInt 10)])]\<rparr>)"
  by (simp add: run_simps order_obj_attributes bare_obj_attributes)

section \<open>Update events\<close>

text \<open>
  C1, as the code has it. For a registered instance whose stored snapshot is not empty and
  has every key of the current attributes, and whose subscribers do not raise, a persist that
  is not a creation computes a delta holding exactly the keys of the current attributes whose
  values differ from the snapshot's, each with its current value, and invokes every subscriber
  once, in order, with an \<open>update\<close> event; the payload holds the delta under \<open>data\<close> when the
  delta is not empty and has no \<open>data\<close> key when it is. The current attributes become the
  snapshot.
\<close>

theorem update_publishes_exact_delta:
  assumes reg: "sender \<in> set (registered_models s)"
    and snap: "map_of (snapshots s) (obj_id inst) = Some prev"
    and nonempty: "prev \<noteq> []"
    and keys: "fst ` set (get_attributes inst) \<subseteq> fst ` set prev"
    and quiet: "\<And>cb p. cb \<in> set (callbacks s) \<Longrightarrow> \<not> cb_raises cb sender ''update'' p"
  shows "\<exists>delta.
     compute_delta (get_attributes inst) prev = Inr delta \<and>
     fst ` set delta =
       {k \<in> fst ` set (get_attributes inst). map_of (get_attributes inst) k \<noteq> map_of prev k} \<and>
     (\<forall>k \<in> fst ` set delta. map_of delta k = map_of (get_attributes inst) k) \<and>
     post_save_callback sender inst False s =
       (None,
        s\<lparr>calls := calls s @
             map (\<lambda>cb. (cb_name cb, sender, ''update'',
                    (''id'', Ident (pk inst)) # (if delta = [] then [] else [(''data'', Data delta)])))
               (callbacks s),
          snapshots := AList.update (obj_id inst) (get_attributes inst) (snapshots s)\<rparr>)"
proof -
  obtain delta where delta: "compute_delta (get_attributes inst) prev = Inr delta"
    using compute_delta_succeeds [OF keys] by blast
  have dkeys: "fst ` set delta =
      {k \<in> fst ` set (get_attributes inst). map_of (get_attributes inst) k \<noteq> map_of prev k}"
    by (rule compute_delta_keys [OF delta])
  have dvals: "\<forall>k \<in> fst ` set delta. map_of delta k = map_of (get_attributes inst) k"
    unfolding dkeys by (simp add: compute_delta_lookup [OF delta])
  have pub: "publish sender ''update'' (pk inst) (Some delta) s =
      (None, s\<lparr>calls := calls s @
         map (\<lambda>cb. (cb_name cb, sender, ''update'', build_payload (pk inst) (Some delta)))
           (callbacks s)\<rparr>)"
    by (rule publish_no_raise) (rule quiet)
  have "post_save_callback sender inst False s =
       (None,
        s\<lparr>calls := calls s @
             map (\<lambda>cb. (cb_name cb, sender, ''update'',
                    (''id'', Ident (pk inst)) # (if delta = [] then [] else [(''data'', Data delta)])))
               (callbacks s),
          snapshots := AList.update (obj_id inst) (get_attributes inst) (snapshots s)\<rparr>)"
    by (simp add: post_save_update [OF reg snap nonempty] delta pub build_payload_eq)
  with delta dkeys dvals show ?thesis by blast
qed

text \<open>The order paid: only \<open>status\<close> is in the delta, \<open>id\<close> and \<open>total\<close> are unchanged.\<close>

theorem update_publishes_exact_delta_witness:
  "compute_delta (get_attributes (order_obj 7 ''paid'' 10))
     [(''id'', PyInt 1), (''status'', PyStr ''new''), (''total'', PyInt 10)] =
     Inr [(''status'', PyStr ''paid'')] \<and>
   post_save_callback ''Order'' (order_obj 7 ''paid'' 10) False s_order =
     (None,
      s_order\<lparr>calls :=
          [(''a'', ''Order'', ''update'',
            [(''id'', Ident (PyInt 1)), (''data'', Data [(''status'', PyStr ''paid'')])]),
           (''b'', ''Order'', ''update'',
            [(''id'', Ident (PyInt 1)), (''data'', Data [(''status'', PyStr ''paid'')])])],
        snapshots :=
          [(7, [(''id'', PyInt 1), (''status'', PyStr ''paid''), (''total'', PyInt 10)])]\<rparr>)"
proof -
  let ?prev = "[(''id'', PyInt 1), (''status'', PyStr ''new''), (''total'', PyInt 10)]"
  let ?inst = "order_obj 7 ''paid'' 10"
  have reg: "''Order'' \<in> set (registered_models s_order)"
    by (simp add: s_order_fields)
  have snap: "map_of (snapshots s_order) (obj_id ?inst) = Some ?prev"
    by (simp add: s_order_fields order_obj_attributes)
  have nonempty: "?prev \<noteq> []" by simp
  have keys: "fst ` set (get_attributes ?inst) \<subseteq> fst ` set ?prev"
    by (simp add: order_obj_attributes)
  have quiet: "\<not> cb_raises cb ''Order'' ''update'' p" if "cb \<in> set (callbacks s_order)" for cb p
    using that by (auto simp: s_order_fields cb_ok_def)
  have run: "compute_delta (get_attributes ?inst) ?prev = Inr [(''status'', PyStr ''paid'')]"
    by (simp add: order_obj_attributes compute_delta_def dict_getitem_def)
  obtain delta where
    delta: "compute_delta (get_attributes ?inst) ?prev = Inr delta" and
    out: "post_save_callback ''Order'' ?inst False s_order =
       (None,
        s_order\<lparr>calls := calls s_order @
             map (\<lambda>cb. (cb_name cb, ''Order'', ''update'',
                    (''id'', Ident (pk ?inst)) # (if delta = [] then [] else [(''data'', Data delta)])))
               (callbacks s_order),
          snapshots := AList.update (obj_id ?inst) (get_attributes ?inst) (snapshots s_order)\<rparr>)"
    using update_publishes_exact_delta [OF reg snap nonempty keys quiet] by blast
  from delta run have d: "delta = [(''status'', PyStr ''paid'')]" by simp
  have "post_save_callback ''Order'' ?inst False s_order =
     (None,
      s_order\<lparr>calls :=
          [(''a'', ''Order'', ''update'',
            [(''id'', Ident (PyInt 1)), (''data'', Data [(''status'', PyStr ''paid'')])]),
           (''b'', ''Order'', ''update'',
            [(''id'', Ident (PyInt 1)), (''data'', Data [(''status'', PyStr ''paid'')])])],
        snapshots :=
          [(7, [(''id'', PyInt 1), (''status'', PyStr ''paid''), (''total'', PyInt 10)])]\<rparr>)"
    unfolding out d by (simp add: s_order_fields order_obj_attributes cb_ok_def)
  with run show ?thesis by blast
qed

text \<open>
  The claim as stated (for every instance that has a stored snapshot) fails when the stored
  snapshot is empty, where the guard raises and nothing is published, and when a subscriber
  raises, where the subscribers after it receive nothing.
\<close>

theorem update_with_snapshot_counterexample:
  "map_of (snapshots (mk_state [(9, [])] [cb_ok ''a''] [''Order''])) 9 = Some [] \<and>
   post_save_callback ''Order'' (order_obj 9 ''paid'' 10) False
       (mk_state [(9, [])] [cb_ok ''a''] [''Order'']) =
     (Some TypeError, mk_state [(9, [])] [cb_ok ''a''] [''Order'']) \<and>
   post_save_callback ''Order'' (order_obj 7 ''paid'' 10) False
       (mk_state [(7, [(''id'', PyInt 1), (''status'', PyStr ''new''), (''total'', PyInt 10)])]
          [cb_bad ''a'', cb_ok ''b''] [''Order'']) =
     (Some (SubscriberError ''a''),
      (mk_state [(7, [(''id'', PyInt 1), (''status'', PyStr ''new''), (''total'', PyInt 10)])]
          [cb_bad ''a'', cb_ok ''b''] [''Order''])
        \<lparr>calls := [(''a'', ''Order'', ''update'',
            [(''id'', Ident (PyInt 1)), (''data'', Data [(''status'', PyStr ''paid'')])])]\<rparr>)"
  by (simp add: run_simps order_obj_attributes)

text \<open>
  C4. The claim is that, for a registered instance that has a stored snapshot, persisting
  again when no attribute value has changed publishes an \<open>update\<close> event whose payload holds
  the identifier and no \<open>data\<close>. The code departs from it where the stored snapshot is empty.
  For the object whose only field is a one-to-one primary key the construct hook stores the
  empty snapshot; the persist that follows, with nothing changed, raises at the guard
  \<open>if not previous\<close>, which takes the empty snapshot for a missing one, and neither
  subscriber is invoked.
\<close>

theorem unchanged_update_empty_snapshot_raises:
  "get_attributes (bare_obj 5) = [] \<and>
   snapshots (snd (post_init_callback ''Profile'' (bare_obj 5)
       (mk_state [] [cb_ok ''a'', cb_ok ''b''] [''Profile'']))) = [(5, [])] \<and>
   post_save_callback ''Profile'' (bare_obj 5) False
       (snd (post_init_callback ''Profile'' (bare_obj 5)
          (mk_state [] [cb_ok ''a'', cb_ok ''b''] [''Profile'']))) =
     (Some TypeError,
      (mk_state [] [cb_ok ''a'', cb_ok ''b''] [''Profile''])\<lparr>snapshots := [(5, [])]\<rparr>)"
  by (simp add: run_simps bare_obj_attributes)

section \<open>The guard of the update path\<close>

text \<open>
  C2, as the code has it. For a registered instance whose stored snapshot, if it has one, is
  not empty, a persist that is not a creation raises at the snapshot guard if and only if the
  snapshot store holds no snapshot under the instance's handle; when it raises there, the
  state is unchanged, so no event has been published. When moreover no subscriber raises and
  the stored snapshot has every key of the current attributes, the persist raises if and only
  if there is no snapshot.
\<close>

theorem update_guard_raises_iff:
  assumes reg: "sender \<in> set (registered_models s)"
    and nonempty: "map_of (snapshots s) (obj_id inst) \<noteq> Some []"
  shows "(fst (post_save_callback sender inst False s) = Some TypeError \<longleftrightarrow>
            map_of (snapshots s) (obj_id inst) = None) \<and>
         (fst (post_save_callback sender inst False s) = Some TypeError \<longrightarrow>
            snd (post_save_callback sender inst False s) = s) \<and>
         ((\<forall>cb \<in> set (callbacks s). \<forall>p. \<not> cb_raises cb sender ''update'' p) \<and>
          (\<forall>prev. map_of (snapshots s) (obj_id inst) = Some prev \<longrightarrow>
             fst ` set (get_attributes inst) \<subseteq> fst ` set prev) \<longrightarrow>
            (fst (post_save_callback sender inst False s) \<noteq> None \<longleftrightarrow>
               map_of (snapshots s) (obj_id inst) = None))"
proof (cases "map_of (snapshots s) (obj_id inst)")
  case None
  then show ?thesis by (simp add: post_save_no_snapshot [OF reg])
next
  case (Some prev)
  with nonempty have prev: "map_of (snapshots s) (obj_id inst) = Some prev" "prev \<noteq> []"
    by simp_all
  have guard: "fst (post_save_callback sender inst False s) \<noteq> Some TypeError"
  proof (cases "compute_delta (get_attributes inst) prev")
    case (Inl e)
    then show ?thesis
      using compute_delta_error [OF Inl] by (simp add: post_save_update [OF reg prev])
  next
    case (Inr delta)
    then show ?thesis
      by (simp add: post_save_update [OF reg prev] finish_fst publish_error_kind)
  qed
  have returns: "fst (post_save_callback sender inst False s) = None"
    if quiet: "\<forall>cb \<in> set (callbacks s). \<forall>p. \<not> cb_raises cb sender ''update'' p"
      and keys: "fst ` set (get_attributes inst) \<subseteq> fst ` set prev"
  proof -
    obtain delta where delta: "compute_delta (get_attributes inst) prev = Inr delta"
      using compute_delta_succeeds [OF keys] by blast
    have "publish sender ''update'' (pk inst) (Some delta) s =
        (None, s\<lparr>calls := calls s @
           map (\<lambda>cb. (cb_name cb, sender, ''update'', build_payload (pk inst) (Some delta)))
             (callbacks s)\<rparr>)"
      using quiet by (intro publish_no_raise) simp
    then show ?thesis
      by (simp add: post_save_update [OF reg prev] delta)
  qed
  from guard returns prev show ?thesis by auto
qed

text \<open>
  The order at address 8 has no snapshot and raises at the guard; the order at address 7 has
  one and returns.
\<close>

theorem update_guard_raises_iff_witness:
  "map_of (snapshots s_order) 8 = None \<and>
   post_save_callback ''Order'' (order_obj 8 ''paid'' 10) False s_order = (Some TypeError, s_order) \<and>
   map_of (snapshots s_order) 7 =
     Some [(''id'', PyInt 1), (''status'', PyStr ''new''), (''total'', PyInt 10)] \<and>
   fst (post_save_callback ''Order'' (order_obj 7 ''paid'' 10) False s_order) = None"
proof -
  have reg: "''Order'' \<in> set (registered_models s_order)"
    by (simp add: s_order_fields)
  have miss: "map_of (snapshots s_order) (obj_id (order_obj 8 ''paid'' 10)) = None"
    and there: "map_of (snapshots s_order) (obj_id (order_obj 7 ''paid'' 10)) =
      Some [(''id'', PyInt 1), (''status'', PyStr ''new''), (''total'', PyInt 10)]"
    by (simp_all add: s_order_fields order_obj_attributes)
  have ne8: "map_of (snapshots s_order) (obj_id (order_obj 8 ''paid'' 10)) \<noteq> Some []"
    using miss by simp
  have ne7: "map_of (snapshots s_order) (obj_id (order_obj 7 ''paid'' 10)) \<noteq> Some []"
    using there by simp
  have quiet: "\<forall>cb \<in> set (callbacks s_order). \<forall>p. \<not> cb_raises cb ''Order'' ''update'' p"
    by (simp add: s_order_fields cb_ok_def)
  have keys: "\<forall>prev. map_of (snapshots s_order) (obj_id (order_obj 7 ''paid'' 10)) = Some prev \<longrightarrow>
      fst ` set (get_attributes (order_obj 7 ''paid'' 10)) \<subseteq> fst ` set prev"
    using there by (auto simp: order_obj_attributes)
  note t8 = update_guard_raises_iff [OF reg ne8]
  note t7 = update_guard_raises_iff [OF reg ne7]
  have r8: "fst (post_save_callback ''Order'' (order_obj 8 ''paid'' 10) False s_order) = Some TypeError"
    using t8 miss by blast
  then have s8: "snd (post_save_callback ''Order'' (order_obj 8 ''paid'' 10) False s_order) = s_order"
    using t8 by blast
  have c2: "post_save_callback ''Order'' (order_obj 8 ''paid'' 10) False s_order = (Some TypeError, s_order)"
    using r8 s8 by (simp add: prod_eq_iff)
  have c4: "fst (post_save_callback ''Order'' (order_obj 7 ''paid'' 10) False s_order) = None"
    using t7 quiet keys there by auto
  show ?thesis
    using miss c2 there c4 by (simp add: order_obj_attributes)
qed

text \<open>
  The claim as stated fails in both parts when the second of two subscribers raises: the
  persist raises although a prior snapshot exists, and the event has by then been published.
\<close>

theorem update_raises_with_snapshot_counterexample:
  "map_of (snapshots
       (mk_state [(7, [(''id'', PyInt 1), (''status'', PyStr ''new''), (''total'', PyInt 10)])]
          [cb_ok ''a'', cb_bad ''b''] [''Order''])) 7 =
     Some [(''id'', PyInt 1), (''status'', PyStr ''new''), (''total'', PyInt 10)] \<and>
   fst (post_save_callback ''Order'' (order_obj 7 ''paid'' 10) False
       (mk_state [(7, [(''id'', PyInt 1), (''status'', PyStr ''new''), (''total'', PyInt 10)])]
          [cb_ok ''a'', cb_bad ''b''] [''Order''])) = Some (SubscriberError ''b'') \<and>
   calls (snd (post_save_callback ''Order'' (order_obj 7 ''paid'' 10) False
       (mk_state [(7, [(''id'', PyInt 1), (''status'', PyStr ''new''), (''total'', PyInt 10)])]
          [cb_ok ''a'', cb_bad ''b''] [''Order'']))) =
     [(''a'', ''Order'', ''update'',
        [(''id'', Ident (PyInt 1)), (''data'', Data [(''status'', PyStr ''paid'')])]),
      (''b'', ''Order'', ''update'',
        [(''id'', Ident (PyInt 1)), (''data'', Data [(''status'', PyStr ''paid'')])])]"
  by (simp add: run_simps order_obj_attributes)

section \<open>The snapshot write\<close>

text \<open>
  C5, as the code has it. For an instance of a registered model class, every persist
  observation that returns without raising, and in which no subscriber changes the dict it is
  handed as the payload's \<open>data\<close>, ends with the snapshot store holding the current
  attributes under the instance's handle (create or update, changed or not, with or without
  a prior snapshot on the create path). A persist observation does return without raising
  when no subscriber raises and, on the update path, the stored snapshot is not empty and has
  every key of the current attributes. On the create path the dict that is stored is the one
  the subscribers were handed; the subscribers of this model leave it as it is, which is the
  condition on them.
\<close>

theorem persist_stores_current:
  assumes reg: "sender \<in> set (registered_models s)"
  shows "(fst (post_save_callback sender inst created s) = None \<longrightarrow>
            map_of (snapshots (snd (post_save_callback sender inst created s))) (obj_id inst) =
              Some (get_attributes inst)) \<and>
         ((\<forall>cb \<in> set (callbacks s). \<forall>p.
              \<not> cb_raises cb sender (if created then ''create'' else ''update'') p) \<and>
          (created \<or>
           (\<exists>prev. map_of (snapshots s) (obj_id inst) = Some prev \<and> prev \<noteq> [] \<and>
              fst ` set (get_attributes inst) \<subseteq> fst ` set prev)) \<longrightarrow>
            fst (post_save_callback sender inst created s) = None)"
proof -
  let ?r = "post_save_callback sender inst created s"
  have stored: "map_of (snapshots (snd ?r)) (obj_id inst) = Some (get_attributes inst)"
    if "fst ?r = None"
  proof (cases created)
    case True
    with that show ?thesis
      by (simp add: post_save_create [OF reg] finish_fst finish_snd publish_frame update_conv')
  next
    case False
    show ?thesis
    proof (cases "map_of (snapshots s) (obj_id inst) = None \<or>
        map_of (snapshots s) (obj_id inst) = Some []")
      case True
      with that False show ?thesis by (simp add: post_save_no_snapshot [OF reg])
    next
      case usable: False
      then obtain prev where prev: "map_of (snapshots s) (obj_id inst) = Some prev" "prev \<noteq> []"
        by auto
      from that False show ?thesis
        by (simp add: post_save_update [OF reg prev] finish_fst finish_snd publish_frame
            update_conv' split: sum.splits)
    qed
  qed
  have returns: "fst ?r = None"
    if quiet: "\<forall>cb \<in> set (callbacks s). \<forall>p.
        \<not> cb_raises cb sender (if created then ''create'' else ''update'') p"
      and usable: "created \<or>
        (\<exists>prev. map_of (snapshots s) (obj_id inst) = Some prev \<and> prev \<noteq> [] \<and>
           fst ` set (get_attributes inst) \<subseteq> fst ` set prev)"
  proof (cases created)
    case True
    have "publish sender ''create'' (pk inst) (Some (get_attributes inst)) s =
        (None, s\<lparr>calls := calls s @
           map (\<lambda>cb. (cb_name cb, sender, ''create'',
                  build_payload (pk inst) (Some (get_attributes inst)))) (callbacks s)\<rparr>)"
      using quiet True by (intro publish_no_raise) simp
    with True show ?thesis
      by (simp add: post_save_create [OF reg])
  next
    case False
    with usable obtain prev where
      prev: "map_of (snapshots s) (obj_id inst) = Some prev" "prev \<noteq> []" and
      keys: "fst ` set (get_attributes inst) \<subseteq> fst ` set prev"
      by blast
    obtain delta where delta: "compute_delta (get_attributes inst) prev = Inr delta"
      using compute_delta_succeeds [OF keys] by blast
    have "publish sender ''update'' (pk inst) (Some delta) s =
        (None, s\<lparr>calls := calls s @
           map (\<lambda>cb. (cb_name cb, sender, ''update'', build_payload (pk inst) (Some delta)))
             (callbacks s)\<rparr>)"
      using quiet False by (intro publish_no_raise) simp
    with False show ?thesis
      by (simp add: post_save_update [OF reg prev] delta)
  qed
  from stored returns show ?thesis by blast
qed

text \<open>An update of the snapshotted order, and a create of an order that has no snapshot yet.\<close>

theorem persist_stores_current_witness:
  "fst (post_save_callback ''Order'' (order_obj 7 ''paid'' 10) False s_order) = None \<and>
   map_of (snapshots (snd (post_save_callback ''Order'' (order_obj 7 ''paid'' 10) False s_order))) 7 =
     Some [(''id'', PyInt 1), (''status'', PyStr ''paid''), (''total'', PyInt 10)] \<and>
   fst (post_save_callback ''Order'' (order_obj 8 ''new'' 12) True s_order) = None \<and>
   map_of (snapshots (snd (post_save_callback ''Order'' (order_obj 8 ''new'' 12) True s_order))) 8 =
     Some [(''id'', PyInt 1), (''status'', PyStr ''new''), (''total'', PyInt 12)]"
proof -
  have reg: "''Order'' \<in> set (registered_models s_order)"
    by (simp add: s_order_fields)
  have quiet: "\<forall>cb \<in> set (callbacks s_order). \<forall>p.
      \<not> cb_raises cb ''Order'' (if created then ''create'' else ''update'') p" for created
    by (simp add: s_order_fields cb_ok_def)
  have usable: "\<exists>prev. map_of (snapshots s_order) (obj_id (order_obj 7 ''paid'' 10)) = Some prev \<and>
      prev \<noteq> [] \<and> fst ` set (get_attributes (order_obj 7 ''paid'' 10)) \<subseteq> fst ` set prev"
    by (simp add: s_order_fields order_obj_attributes)
  note upd = persist_stores_current [OF reg, of "order_obj 7 ''paid'' 10" False]
  note cre = persist_stores_current [OF reg, of "order_obj 8 ''new'' 12" True]
  have u1: "fst (post_save_callback ''Order'' (order_obj 7 ''paid'' 10) False s_order) = None"
    using upd quiet [of False] usable by blast
  have u2: "map_of (snapshots (snd (post_save_callback ''Order'' (order_obj 7 ''paid'' 10) False s_order)))
      (obj_id (order_obj 7 ''paid'' 10)) = Some (get_attributes (order_obj 7 ''paid'' 10))"
    using upd u1 by blast
  have c1: "fst (post_save_callback ''Order'' (order_obj 8 ''new'' 12) True s_order) = None"
    using cre quiet [of True] by blast
  have c2: "map_of (snapshots (snd (post_save_callback ''Order'' (order_obj 8 ''new'' 12) True s_order)))
      (obj_id (order_obj 8 ''new'' 12)) = Some (get_attributes (order_obj 8 ''new'' 12))"
    using cre c1 by blast
  show ?thesis
    using u1 u2 c1 c2 by (simp add: order_obj_attributes)
qed

text \<open>
  The claim as stated (every persist observation) fails where the hook raises: on an update
  without a snapshot nothing is stored; on an update whose subscriber raises the store keeps
  the old snapshot, not the current attributes; and on a create whose subscriber raises
  nothing is stored.
\<close>

theorem persist_raising_counterexample:
  "fst (post_save_callback ''Order'' (order_obj 8 ''paid'' 10) False s_order) = Some TypeError \<and>
   map_of (snapshots (snd (post_save_callback ''Order'' (order_obj 8 ''paid'' 10) False s_order))) 8 = None \<and>
   fst (post_save_callback ''Order'' (order_obj 7 ''paid'' 10) False
          (mk_state [(7, [(''id'', PyInt 1), (''status'', PyStr ''new''), (''total'', PyInt 10)])]
             [cb_bad ''a''] [''Order''])) = Some (SubscriberError ''a'') \<and>
   map_of (snapshots (snd (post_save_callback ''Order'' (order_obj 7 ''paid'' 10) False
          (mk_state [(7, [(''id'', PyInt 1), (''status'', PyStr ''new''), (''total'', PyInt 10)])]
             [cb_bad ''a''] [''Order'']))))
      7 = Some [(''id'', PyInt 1), (''status'', PyStr ''new''), (''total'', PyInt 10)] \<and>
   fst (post_save_callback ''Order'' (order_obj 7 ''paid'' 10) True
          (mk_state [] [cb_bad ''a''] [''Order''])) = Some (SubscriberError ''a'') \<and>
   map_of (snapshots (snd (post_save_callback ''Order'' (order_obj 7 ''paid'' 10) True
          (mk_state [] [cb_bad ''a''] [''Order''])))) 7 = None"
  by (simp add: run_simps s_order_fields order_obj_attributes)

section \<open>Unregistered types\<close>

text \<open>
  C7. For a model class that is not in the registered list, each of the three hooks
  (\<open>post_init_callback\<close>, \<open>post_save_callback\<close>, \<open>post_delete_callback\<close>) returns without
  raising and leaves the whole state as it was: no subscriber is invoked and the snapshot
  store is not modified.
\<close>

theorem unregistered_hooks_noop:
  "sender \<notin> set (registered_models s) \<Longrightarrow>
   post_init_callback sender inst s = (None, s) \<and>
   post_save_callback sender inst created s = (None, s) \<and>
   post_delete_callback sender inst s = (None, s)"
  by (simp add: post_init_callback_def post_save_callback_def post_delete_callback_def)

theorem unregistered_hooks_noop_witness:
  "''Invoice'' \<notin> set (registered_models s_order) \<and>
   post_init_callback ''Invoice'' (order_obj 7 ''paid'' 10) s_order = (None, s_order) \<and>
   post_save_callback ''Invoice'' (order_obj 7 ''paid'' 10) False s_order = (None, s_order) \<and>
   post_delete_callback ''Invoice'' (order_obj 7 ''paid'' 10) s_order = (None, s_order)"
proof -
  have h: "''Invoice'' \<notin> set (registered_models s_order)"
    by (simp add: s_order_def mk_state_def)
  show ?thesis
    using h unregistered_hooks_noop [OF h, of "order_obj 7 ''paid'' 10" False] by simp
qed

section \<open>Registry\<close>

text \<open>
  C8, as the code has it. \<open>unregister\<close> is \<open>_registered_models.remove(model_class)\<close> with no
  membership test before it: for a model class that is not in the registered list it raises
  \<open>ValueError\<close>, and the registered list (with the rest of the state) is left unchanged.
\<close>

theorem unregister_absent_raises:
  "model_class \<notin> set (registered_models s) \<Longrightarrow> unregister model_class s = (Some ValueError, s)"
  by (simp add: unregister_def list_remove_def)

theorem unregister_absent_raises_witness:
  "''Order'' \<notin> set (registered_models (mk_state [] [] [''Invoice'', ''Customer''])) \<and>
   unregister ''Order'' (mk_state [] [] [''Invoice'', ''Customer'']) =
     (Some ValueError, mk_state [] [] [''Invoice'', ''Customer''])"
proof -
  have h: "''Order'' \<notin> set (registered_models (mk_state [] [] [''Invoice'', ''Customer'']))"
    by (simp add: mk_state_def)
  show ?thesis using h unregister_absent_raises [OF h] by simp
qed

text \<open>
  The claim as stated (unregistering a class that is not registered does not raise) fails:
  with only \<open>Order\<close> registered, \<open>unregister\<close> of \<open>Invoice\<close> raises.
\<close>

theorem unregister_absent_counterexample:
  "fst (unregister ''Invoice'' s_order) \<noteq> None"
  by (simp add: unregister_def list_remove_def s_order_def mk_state_def)

section \<open>The release callback\<close>

text \<open>
  C9. The callback registered with the weak reference at construct time never raises; in
  every state of the snapshot store it leaves exactly the store without the instance's entry
  (and nothing else of the state changed), so when the handle is absent the state is
  unchanged, and running it a second time changes nothing more.
\<close>

theorem destructor_defensive:
  "fst (destructor inst s) = None \<and>
   snd (destructor inst s) = s\<lparr>snapshots := AList.delete (obj_id inst) (snapshots s)\<rparr> \<and>
   (obj_id inst \<notin> fst ` set (snapshots s) \<longrightarrow> snd (destructor inst s) = s) \<and>
   destructor inst (snd (destructor inst s)) = destructor inst s"
proof -
  have absent: "destructor inst t = (None, t)" if "obj_id inst \<notin> fst ` set (snapshots t)"
    for t :: "('a, 'b) state"
    using that by (simp add: destructor_def dict_contains_def)
  have present: "destructor inst t = (None, t\<lparr>snapshots := AList.delete (obj_id inst) (snapshots t)\<rparr>)"
    if "obj_id inst \<in> fst ` set (snapshots t)" for t :: "('a, 'b) state"
    using that by (simp add: destructor_def dict_contains_def dict_del_def)
  have gone: "obj_id inst \<notin> fst ` set (snapshots (snd (destructor inst s)))"
    by (cases "obj_id inst \<in> fst ` set (snapshots s)")
      (simp_all add: absent present delete_notin_dom)
  show ?thesis
  proof (cases "obj_id inst \<in> fst ` set (snapshots s)")
    case True
    with absent [OF gone] show ?thesis by (simp add: present)
  next
    case False
    then show ?thesis by (simp add: absent)
  qed
qed

theorem destructor_defensive_witness:
  "fst (destructor (order_obj 8 ''new'' 10) s_order) = None \<and>
   8 \<notin> fst ` set (snapshots s_order) \<and>
   snd (destructor (order_obj 8 ''new'' 10) s_order) = s_order \<and>
   snapshots (snd (destructor (order_obj 7 ''new'' 10) s_order)) = [] \<and>
   destructor (order_obj 7 ''new'' 10)
     (snd (destructor (order_obj 7 ''new'' 10) s_order)) =
   destructor (order_obj 7 ''new'' 10) s_order"
proof -
  have absent: "obj_id (order_obj 8 ''new'' 10) \<notin> fst ` set (snapshots s_order)"
    by (simp add: s_order_def mk_state_def order_obj_def)
  have emptied: "AList.delete (obj_id (order_obj 7 ''new'' 10)) (snapshots s_order) = []"
    by (simp add: s_order_def mk_state_def order_obj_def)
  have addr: "obj_id (order_obj 8 ''new'' 10) = 8"
    by (simp add: order_obj_def)
  note gone = destructor_defensive [of "order_obj 8 ''new'' 10" s_order]
  note live = destructor_defensive [of "order_obj 7 ''new'' 10" s_order]
  have c1: "fst (destructor (order_obj 8 ''new'' 10) s_order) = None"
    using gone by blast
  have c2: "8 \<notin> fst ` set (snapshots s_order)"
    using absent by (simp add: addr)
  have c3: "snd (destructor (order_obj 8 ''new'' 10) s_order) = s_order"
    using gone absent by blast
  have c4: "snapshots (snd (destructor (order_obj 7 ''new'' 10) s_order)) = []"
    using live emptied by simp
  have c5: "destructor (order_obj 7 ''new'' 10)
      (snd (destructor (order_obj 7 ''new'' 10) s_order)) =
    destructor (order_obj 7 ''new'' 10) s_order"
    using live by blast
  show ?thesis
    using c1 c2 c3 c4 c5 by blast
qed

section \<open>The update path without a usable snapshot\<close>

text \<open>
  C10. For a registered model class and a persist that is not a creation, when the
  snapshot store has no snapshot under the instance's handle, or an empty one, the hook
  raises at its guard and the whole state is as it was before the call: the snapshot store
  is untouched (the current attributes are not stored) and no subscriber has been invoked.
  A retry therefore starts from the same state.
\<close>

theorem missing_snapshot_raises_unchanged:
  "sender \<in> set (registered_models s) \<Longrightarrow>
   map_of (snapshots s) (obj_id inst) = None \<or> map_of (snapshots s) (obj_id inst) = Some [] \<Longrightarrow>
   post_save_callback sender inst False s = (Some TypeError, s)"
  by (auto simp: post_save_callback_def truthy_def Let_def)

theorem missing_snapshot_raises_unchanged_witness:
  "''Order'' \<in> set (registered_models s_order) \<and>
   map_of (snapshots s_order) 8 = None \<and>
   post_save_callback ''Order'' (order_obj 8 ''paid'' 10) False s_order =
     (Some TypeError, s_order) \<and>
   map_of (snapshots (mk_state [(3, [])] [cb_ok ''a''] [''Profile''])) 3 = Some [] \<and>
   post_save_callback ''Profile'' (bare_obj 3) False (mk_state [(3, [])] [cb_ok ''a''] [''Profile'']) =
     (Some TypeError, mk_state [(3, [])] [cb_ok ''a''] [''Profile''])"
proof -
  have reg1: "''Order'' \<in> set (registered_models s_order)"
    by (simp add: s_order_def mk_state_def)
  have miss: "map_of (snapshots s_order) (obj_id (order_obj 8 ''paid'' 10)) = None"
    by (simp add: s_order_def mk_state_def order_obj_def)
  have reg2: "''Profile'' \<in> set (registered_models (mk_state [(3, [])] [cb_ok ''a''] [''Profile'']))"
    by (simp add: mk_state_def)
  have empty: "map_of (snapshots (mk_state [(3, [])] [cb_ok ''a''] [''Profile''])) (obj_id (bare_obj 3)) = Some []"
    by (simp add: mk_state_def bare_obj_def)
  have addr: "obj_id (order_obj 8 ''paid'' 10) = 8" "obj_id (bare_obj 3) = 3"
    by (simp_all add: order_obj_def bare_obj_def)
  show ?thesis
    using reg1 miss empty
      missing_snapshot_raises_unchanged [OF reg1 disjI1 [OF miss]]
      missing_snapshot_raises_unchanged [OF reg2 disjI2 [OF empty]]
    by (simp add: addr)
qed

end
